theory Spec2Isabelle
  imports Main "HOL-Library.Multiset" "HOL-Library.Sublist"
begin

section \<open>The AWS image provider: data model\<close>

text \<open>
  The development follows \<^verbatim>\<open>provider/awsimages/aws.go\<close>. Go strings are byte
  sequences and are modelled by \<^typ>\<open>string\<close>.

  An \<^verbatim>\<open>ec2.Image\<close> is a record of the provider's library. Only the fields that the
  specification names are kept; the record is extensible, so further provider metadata
  can ride along untouched. The creation date is a point in time and is modelled by a
  natural number, so that comparing two dates compares the times they denote.
\<close>

record image =
  ImageId :: string
  CreationDate :: nat
  Name :: string
  OwnerId :: string

text \<open>
  \<^verbatim>\<open>AwsConfig\<close>, as declared in the source.
\<close>

record AwsConfig =
  Region :: string
  RegionExclude :: string
  AccessKey :: string
  SecretKey :: string

text \<open>
  The type \<^verbatim>\<open>MultiImages\<close> of the repository is a Go map from region names to image
  slices. Go maps are reference values: \<^verbatim>\<open>make\<close> allocates a new map object, and a
  variable or a struct field only holds a reference to it. The store of map objects is
  a list whose positions are the references.
\<close>

type_synonym MultiImages = "string \<rightharpoonup> image list"

type_synonym store = "MultiImages list"

type_synonym ref = nat

definition make_map :: "store \<Rightarrow> store \<times> ref" where
  "make_map h = (h @ [Map.empty], length h)"

text \<open>
  A regional client (\<^verbatim>\<open>*ec2.EC2\<close>) is used through \<^verbatim>\<open>DescribeImages\<close> only. It is
  modelled by the outcome of that call on a request: \<open>Inl err\<close> when the returned error
  is not nil, \<open>Inr imgs\<close> with \<open>imgs\<close> the field \<^verbatim>\<open>resp.Images\<close> otherwise. The request
  type \<open>'i\<close> and the provider's error type \<open>'e\<close> are left open.
\<close>

type_synonym ('i, 'e) svc = "'i \<Rightarrow> 'e + image list"

text \<open>
  Modelled from the spec: the declaration of \<^verbatim>\<open>multiRegion\<close> is not part of the source
  at hand. The specification describes the registry as one client per resolved region,
  keyed by the region identifier; \<^verbatim>\<open>MultiImages\<close> ranges over its field
  \<^verbatim>\<open>regions\<close>. The field is an association list; that the keys of a Go map are
  pairwise different is the predicate \<open>registry_ok\<close>.
\<close>

record ('i, 'e) multiRegion =
  regions :: "(string \<times> ('i, 'e) svc) list"

record ('i, 'e) AwsImages =
  services :: "('i, 'e) multiRegion"
  images :: ref

definition registry_ok :: "('i, 'e) AwsImages \<Rightarrow> bool" where
  "registry_ok a = distinct (map fst (regions (services a)))"

section \<open>Help\<close>

text \<open>
  The help messages of \<^verbatim>\<open>newModifyFlags\<close>, \<^verbatim>\<open>newDeleteFlags\<close> and
  \<^verbatim>\<open>newCopyFlags\<close> are built in other files of the repository; \<open>Help\<close> takes them
  as a parameter. The receiver is not used by the method and is left out.
\<close>

record helpMsgs =
  newModifyFlags_helpMsg :: string
  newDeleteFlags_helpMsg :: string
  newCopyFlags_helpMsg :: string

definition global :: string where
  \<open>global = ''\<newline>  -access-key      "..."       AWS Access Key (env: IMAGES_AWS_ACCESS_KEY)\<newline>  -secret-key      "..."       AWS Secret Key (env: IMAGES_AWS_SECRET_KEY)\<newline>  -region          "..."       AWS Region (env: IMAGES_AWS_REGION)\<newline>  -region-exclude  "..."       AWS Region to be excluded (env: IMAGES_AWS_REGION_EXCLUDE)\<newline>''\<close>

definition list_help :: string where
  "list_help = ''Usage: images list --provider aws [options]\<newline>\<newline> List AMI properties.\<newline>\<newline>Options:\<newline>'' @ [CHR 0x09]"

definition Help :: "helpMsgs \<Rightarrow> string \<Rightarrow> string" where
  "Help f command =
     (if command = ''modify'' then newModifyFlags_helpMsg f @ global
      else if command = ''delete'' then newDeleteFlags_helpMsg f @ global
      else if command = ''list'' then list_help @ global
      else if command = ''copy'' then newCopyFlags_helpMsg f @ global
      else ''no help found for command '' @ command)"

section \<open>Construction\<close>

text \<open>
  The HTTP client and the configuration of the provider's library, reduced to the
  fields that \<open>New\<close> sets (durations in seconds; the logger is left out).
\<close>

record http_Client =
  TLSHandshakeTimeout :: nat
  Timeout :: nat

record aws_Config =
  Credentials :: "string \<times> string \<times> string"
  HTTPClient :: http_Client

text \<open>
  \<^verbatim>\<open>newMultiRegion\<close> and \<^verbatim>\<open>parseRegions\<close> live in other files of the repository
  and are parameters of \<open>New\<close>; the type \<open>'r\<close> is what \<^verbatim>\<open>parseRegions\<close> hands to
  \<^verbatim>\<open>newMultiRegion\<close>. The error of \<^verbatim>\<open>errors.New\<close> is its message. On success the
  provider holds a map allocated by \<^verbatim>\<open>make\<close>.
\<close>

definition New ::
  "(aws_Config \<Rightarrow> 'r \<Rightarrow> ('i, 'e) multiRegion) \<Rightarrow> (string \<Rightarrow> string \<Rightarrow> 'r) \<Rightarrow>
     store \<Rightarrow> AwsConfig \<Rightarrow> string + (store \<times> ('i, 'e) AwsImages)" where
  "New newMultiRegion parseRegions h conf =
     (let checkCfg = ''Please check your configuration'' in
      if Region conf = '''' then Inl (''AWS Region is not set. '' @ checkCfg)
      else if AccessKey conf = '''' then Inl (''AWS Access Key is not set. '' @ checkCfg)
      else if SecretKey conf = '''' then Inl (''AWS Secret Key is not set. '' @ checkCfg)
      else
        let timeout = 30;
            client = \<lparr>TLSHandshakeTimeout = timeout, Timeout = timeout\<rparr>;
            creds = (AccessKey conf, SecretKey conf, '''');
            awsCfg = \<lparr>Credentials = creds, HTTPClient = client\<rparr>;
            m = newMultiRegion awsCfg (parseRegions (Region conf) (RegionExclude conf));
            (h', p) = make_map h
        in Inr (h', \<lparr>services = m, images = p\<rparr>))"

section \<open>The fan-out: MultiImages\<close>

text \<open>
  The aggregated error is a value of the interface \<^verbatim>\<open>error\<close>: either nil (\<open>None\<close>)
  or a \<^verbatim>\<open>*multierror.Error\<close>, given by its slice \<^verbatim>\<open>Errors\<close>. \<^verbatim>\<open>multierror.Append\<close>
  belongs to the library \<^verbatim>\<open>hashicorp/go-multierror\<close>: applied to nil it starts a new
  collection, and it puts the error it is given at the end of the slice. The errors of
  the provider are taken to be ordinary errors, not collections themselves.
\<close>

type_synonym 'e error = "'e list option"

definition multierror_Append :: "'e error \<Rightarrow> 'e \<Rightarrow> 'e error" where
  "multierror_Append err e = (case err of None \<Rightarrow> Some [e] | Some es \<Rightarrow> Some (es @ [e]))"

text \<open>
  Modelled from the spec: the type \<^verbatim>\<open>byTime\<close> and its method \<^verbatim>\<open>Less\<close> are declared
  in another file of the repository. The specification calls the step Result Ordering,
  an ascending sort by creation timestamp with the oldest image first.
  \<open>sort_byTime xs\<close> stands for the slice after \<^verbatim>\<open>sort.Sort(byTime(xs))\<close>. The order
  that \<^verbatim>\<open>sort.Sort\<close> gives to images of equal timestamp is not fixed by Go; the
  theorems below use only that the result is ordered and has the same elements.
\<close>

definition sort_byTime :: "image list \<Rightarrow> image list" where
  "sort_byTime xs = sort_key CreationDate xs"

text \<open>
  The body of the goroutine started for one pair of the registry. The part between
  \<^verbatim>\<open>mu.Lock()\<close> and \<^verbatim>\<open>mu.Unlock()\<close> is the only access to the shared variables,
  which are the map behind the local variable \<^verbatim>\<open>images\<close> (here \<open>images'\<close>, a
  reference into the store, since \<open>images\<close> names the field of the receiver) and the error
  \<^verbatim>\<open>multiErrors\<close>; the lock makes these parts run one after the other. The shared
  state is a pair of the store and the error.
\<close>

fun goroutine ::
  "'i \<Rightarrow> ref \<Rightarrow> string \<times> ('i, 'e) svc \<Rightarrow> store \<times> 'e error \<Rightarrow> store \<times> 'e error" where
  "goroutine input images' (region, svc) (h, multiErrors) =
     (case svc input of
        Inl err \<Rightarrow> (h, multierror_Append multiErrors err)
      | Inr resp_Images \<Rightarrow>
          (h[images' := (h ! images')(region \<mapsto>
               (if length resp_Images > 1 then sort_byTime resp_Images else resp_Images))],
           multiErrors))"

text \<open>
  \<^verbatim>\<open>MultiImages\<close> starts one goroutine per pair and waits for all of them
  (\<^verbatim>\<open>wg.Wait()\<close>), so every goroutine has run its locked part exactly once when the
  method returns. Neither the iteration order of a Go map nor the order in which the
  goroutines take the lock is fixed. The order of the association list stands for the
  order in which the lock is taken; every statement below holds for every registry
  list, hence for every such order.

  The method has a pointer receiver. The model returns the store and the receiver
  together with the two results, so that what the call leaves unchanged can be stated.
\<close>

definition MultiImages ::
  "store \<Rightarrow> ('i, 'e) AwsImages \<Rightarrow> 'i \<Rightarrow> store \<times> ('i, 'e) AwsImages \<times> ref \<times> 'e error" where
  "MultiImages h a input =
     (let multiErrors = None;
          (h1, images') = make_map h;
          (h2, multiErrors) = fold (goroutine input images') (regions (services a)) (h1, multiErrors)
      in (h2, a, images', multiErrors))"

text \<open>
  Notions used to state the properties: the result map of a call and its error, the
  regions whose call succeeds, and the errors of the failing regions in registry order.
\<close>

definition result_map :: "store \<times> ('i, 'e) AwsImages \<times> ref \<times> 'e error \<Rightarrow> MultiImages" where
  "result_map res = (case res of (h, a, p, err) \<Rightarrow> h ! p)"

definition result_error :: "store \<times> ('i, 'e) AwsImages \<times> ref \<times> 'e error \<Rightarrow> 'e error" where
  "result_error res = (case res of (h, a, p, err) \<Rightarrow> err)"

definition succeeds :: "'i \<Rightarrow> string \<times> ('i, 'e) svc \<Rightarrow> bool" where
  "succeeds input x = (\<not> isl (snd x input))"

definition failures :: "'i \<Rightarrow> (string \<times> ('i, 'e) svc) list \<Rightarrow> 'e list" where
  "failures input rs = map (\<lambda>x. projl (snd x input)) (filter (\<lambda>x. \<not> succeeds input x) rs)"

section \<open>Example values\<close>

text \<open>
  Concrete clients, providers, configurations and help messages on which the statements
  below are evaluated. The request type is \<open>unit\<close>, a provider error is its message.
\<close>

definition img :: "string \<Rightarrow> nat \<Rightarrow> image" where
  "img i t = \<lparr>ImageId = i, CreationDate = t, Name = ''ami'', OwnerId = ''self''\<rparr>"

definition ok_east :: "(unit, string) svc" where
  "ok_east input = Inr [img ''ami-3'' 30, img ''ami-1'' 10, img ''ami-2'' 20]"

definition ok_west :: "(unit, string) svc" where
  "ok_west input = Inr [img ''ami-9'' 90]"

definition down_eu :: "(unit, string) svc" where
  "down_eu input = Inl ''RequestLimitExceeded''"

definition down_ap :: "(unit, string) svc" where
  "down_ap input = Inl ''AuthFailure''"

definition provider_ok :: "(unit, string) AwsImages" where
  "provider_ok = \<lparr>services = \<lparr>regions = [(''us-east-1'', ok_east), (''us-west-2'', ok_west)]\<rparr>, images = 0\<rparr>"

definition provider_mixed :: "(unit, string) AwsImages" where
  "provider_mixed = \<lparr>services = \<lparr>regions =
     [(''eu-west-1'', down_eu), (''us-east-1'', ok_east), (''ap-south-1'', down_ap), (''us-west-2'', ok_west)]\<rparr>,
     images = 0\<rparr>"

definition provider_renamed :: "(unit, string) AwsImages" where
  "provider_renamed = provider_mixed\<lparr>services :=
     \<lparr>regions = map (\<lambda>x. (''somewhere'', snd x)) (regions (services provider_mixed))\<rparr>\<rparr>"

definition result_mixed :: MultiImages where
  "result_mixed = [''us-east-1'' \<mapsto> [img ''ami-1'' 10, img ''ami-2'' 20, img ''ami-3'' 30],
     ''us-west-2'' \<mapsto> [img ''ami-9'' 90]]"

definition conf_no_key :: AwsConfig where
  "conf_no_key = \<lparr>Region = ''us-east-1'', RegionExclude = '''', AccessKey = '''', SecretKey = ''s3cr3t''\<rparr>"

definition conf_full :: AwsConfig where
  "conf_full = \<lparr>Region = ''us-east-1,us-west-2'', RegionExclude = '''', AccessKey = ''AKIA'', SecretKey = ''s3cr3t''\<rparr>"

definition split_regions :: "string \<Rightarrow> string \<Rightarrow> string list" where
  "split_regions incl excl = [incl]"

definition down_clients :: "aws_Config \<Rightarrow> string list \<Rightarrow> (unit, string) multiRegion" where
  "down_clients cfg rs = \<lparr>regions = map (\<lambda>r. (r, down_eu)) rs\<rparr>"

definition up_clients :: "aws_Config \<Rightarrow> string list \<Rightarrow> (unit, string) multiRegion" where
  "up_clients cfg rs = \<lparr>regions = map (\<lambda>r. (r, ok_west)) rs\<rparr>"

definition flags0 :: helpMsgs where
  "flags0 = \<lparr>newModifyFlags_helpMsg = ''Usage: images modify --provider aws [options]'',
     newDeleteFlags_helpMsg = ''Usage: images delete --provider aws [options]'',
     newCopyFlags_helpMsg = ''Usage: images copy --provider aws [options]''\<rparr>"

section \<open>The effect of the goroutines on the shared state\<close>

text \<open>
  The goroutines never change the number of maps in the store and write only to the
  map they were given. The keys of that map grow by the regions whose call succeeds,
  a key written once is not written again when the keys of the registry are pairwise
  different, and the error collects the failures in the order of the locked parts.
\<close>

lemma fold_goroutine_length:
  "length (fst (fold (goroutine input p) rs st)) = length (fst st)"
  by (induction rs arbitrary: st) (auto split: sum.splits)

lemma fold_goroutine_other:
  "q \<noteq> p \<Longrightarrow> fst (fold (goroutine input p) rs st) ! q = fst st ! q"
  by (induction rs arbitrary: st) (auto split: sum.splits)

lemma goroutine_length:
  "length (fst (goroutine input p x st)) = length (fst st)"
  by (cases x; cases st) (auto split: sum.splits)

lemma goroutine_dom:
  "p < length (fst st) \<Longrightarrow>
   dom (fst (goroutine input p x st) ! p) =
     dom (fst st ! p) \<union> (if succeeds input x then {fst x} else {})"
  by (cases x; cases st) (auto simp: succeeds_def split: sum.splits)

lemma fold_goroutine_dom:
  "p < length (fst st) \<Longrightarrow>
   dom (fst (fold (goroutine input p) rs st) ! p) =
     dom (fst st ! p) \<union> fst ` {x \<in> set rs. succeeds input x}"
proof (induction rs arbitrary: st)
  case Nil
  then show ?case by simp
next
  case (Cons x rs)
  have len: "p < length (fst (goroutine input p x st))"
    using Cons.prems by (simp add: goroutine_length)
  have "dom (fst (fold (goroutine input p) (x # rs) st) ! p) =
      dom (fst (goroutine input p x st) ! p) \<union> fst ` {x \<in> set rs. succeeds input x}"
    using Cons.IH[OF len] by simp
  also have "\<dots> = (dom (fst st ! p) \<union> (if succeeds input x then {fst x} else {}))
      \<union> fst ` {x \<in> set rs. succeeds input x}"
    using Cons.prems by (simp only: goroutine_dom)
  also have "\<dots> = dom (fst st ! p) \<union> fst ` {y \<in> set (x # rs). succeeds input y}"
    by auto
  finally show ?case .
qed

lemma fold_goroutine_untouched:
  "r \<notin> fst ` set rs \<Longrightarrow>
   (fst (fold (goroutine input p) rs st) ! p) r = (fst st ! p) r"
proof (induction rs arbitrary: st)
  case Nil
  then show ?case by simp
next
  case (Cons x rs)
  obtain r' svc where x: "x = (r', svc)" by (cases x)
  obtain h e where st: "st = (h, e)" by (cases st)
  from Cons.prems x have ne: "r' \<noteq> r" and nin: "r \<notin> fst ` set rs" by auto
  have "(fst (goroutine input p x st) ! p) r = (fst st ! p) r"
    using ne x st by (cases "p < length h") (auto simp: list_update_beyond split: sum.splits)
  with Cons.IH[OF nin, of "goroutine input p x st"] show ?case by simp
qed

lemma fold_goroutine_lookup:
  "p < length (fst st) \<Longrightarrow> distinct (map fst rs) \<Longrightarrow> (r, svc) \<in> set rs \<Longrightarrow>
   svc input = Inr imgs \<Longrightarrow>
   (fst (fold (goroutine input p) rs st) ! p) r =
     Some (if length imgs > 1 then sort_byTime imgs else imgs)"
proof (induction rs arbitrary: st)
  case Nil
  then show ?case by simp
next
  case (Cons x rs)
  obtain h e where st: "st = (h, e)" by (cases st)
  have len: "p < length (fst (goroutine input p x st))"
    using Cons.prems(1) st by (cases x) (auto split: sum.splits)
  show ?case
  proof (cases "x = (r, svc)")
    case True
    with Cons.prems have "r \<notin> fst ` set rs" by auto
    then have "(fst (fold (goroutine input p) rs (goroutine input p x st)) ! p) r
        = (fst (goroutine input p x st) ! p) r"
      by (rule fold_goroutine_untouched)
    also have "\<dots> = Some (if length imgs > 1 then sort_byTime imgs else imgs)"
      using True st Cons.prems(1,4) by simp
    finally show ?thesis by simp
  next
    case False
    with Cons.prems have "(r, svc) \<in> set rs" "distinct (map fst rs)" by auto
    with Cons.IH[OF len] Cons.prems(4) show ?thesis by simp
  qed
qed

lemma fold_append_errors:
  "fold (\<lambda>e acc. multierror_Append acc e) es acc =
     (if es = [] then acc else Some ((case acc of None \<Rightarrow> [] | Some xs \<Rightarrow> xs) @ es))"
  by (induction es arbitrary: acc) (auto simp: multierror_Append_def split: option.splits)

lemma fold_goroutine_error:
  "snd (fold (goroutine input p) rs st) =
     fold (\<lambda>e acc. multierror_Append acc e) (failures input rs) (snd st)"
proof (induction rs arbitrary: st)
  case Nil
  then show ?case by (simp add: failures_def)
next
  case (Cons x rs)
  obtain r svc where x: "x = (r, svc)" by (cases x)
  obtain h e where st: "st = (h, e)" by (cases st)
  show ?case
    using Cons.IH[of "goroutine input p x st"] x st
    by (cases "svc input") (auto simp: failures_def succeeds_def)
qed

lemma MultiImages_unfold:
  "MultiImages h a input =
     (fst (fold (goroutine input (length h)) (regions (services a)) (h @ [Map.empty], None)),
      a, length h,
      snd (fold (goroutine input (length h)) (regions (services a)) (h @ [Map.empty], None)))"
  by (simp add: MultiImages_def make_map_def split: prod.splits)

lemma MultiImages_map:
  "result_map (MultiImages h a input) =
     fst (fold (goroutine input (length h)) (regions (services a)) (h @ [Map.empty], None)) ! length h"
  by (simp add: result_map_def MultiImages_unfold)

lemma MultiImages_dom:
  "dom (result_map (MultiImages h a input)) = fst ` {x \<in> set (regions (services a)). succeeds input x}"
  by (simp add: MultiImages_map fold_goroutine_dom)

lemma MultiImages_error:
  "result_error (MultiImages h a input) =
     (if failures input (regions (services a)) = [] then None
      else Some (failures input (regions (services a))))"
  by (simp add: result_error_def MultiImages_unfold fold_goroutine_error fold_append_errors)

lemma MultiImages_lookup:
  "registry_ok a \<Longrightarrow> (r, svc) \<in> set (regions (services a)) \<Longrightarrow> svc input = Inr imgs \<Longrightarrow>
   result_map (MultiImages h a input) r =
     Some (if length imgs > 1 then sort_byTime imgs else imgs)"
  using fold_goroutine_lookup [where p = "length h" and st = "(h @ [Map.empty], None)"
      and rs = "regions (services a)" and r = r and svc = svc and input = input and imgs = imgs]
  by (simp add: MultiImages_map registry_ok_def)

lemma card_succeeded:
  "distinct (map fst rs) \<Longrightarrow>
   card (fst ` {x \<in> set rs. succeeds input x}) = length (filter (succeeds input) rs)"
proof -
  assume d: "distinct (map fst rs)"
  then have "distinct (map fst (filter (succeeds input) rs))"
    by (rule distinct_map_filter)
  then have "card (set (map fst (filter (succeeds input) rs))) = length (filter (succeeds input) rs)"
    using distinct_card by fastforce
  then show ?thesis by (simp add: Collect_conj_eq Int_commute) 
qed

lemma length_failures:
  "length (failures input rs) = length (filter (\<lambda>x. \<not> succeeds input x) rs)"
  by (simp add: failures_def)

lemma length_filter_succeeds:
  "length (filter (succeeds input) rs) = length rs - length (filter (\<lambda>x. \<not> succeeds input x) rs)"
  using sum_length_filter_compl [of "succeeds input" rs] by simp

lemma failures_empty_iff:
  "failures input rs = [] \<longleftrightarrow> (\<forall>x \<in> set rs. succeeds input x)"
  by (simp add: failures_def filter_empty_conv)

lemma failures_member:
  "(r, svc) \<in> set rs \<Longrightarrow> svc input = Inl e \<Longrightarrow> e \<in> set (failures input rs)"
  by (force simp: failures_def succeeds_def)

lemma sorted_sort_byTime: "sorted (map CreationDate (sort_byTime xs))"
  by (simp add: sort_byTime_def)

lemma mset_sort_byTime: "mset (sort_byTime xs) = mset xs"
  by (simp add: sort_byTime_def)

lemma failures_rename:
  "failures input (map (\<lambda>x. (\<rho> (fst x), snd x)) rs) = failures input rs"
  by (induction rs) (auto simp: failures_def succeeds_def)

section \<open>Properties of MultiImages\<close>

text \<open>
  Claim C1. When the call of every regional client of the registry succeeds, the result
  map of \<open>MultiImages\<close> has exactly the regions of the registry as its keys, so as
  many keys as there are regions, and the aggregated error is nil. The statement also
  covers the registry without regions.
\<close>

theorem MultiImages_all_succeed:
  assumes "registry_ok a"
    and "\<forall>x \<in> set (regions (services a)). succeeds input x"
  shows "dom (result_map (MultiImages h a input)) = fst ` set (regions (services a))
    \<and> card (dom (result_map (MultiImages h a input))) = length (regions (services a))
    \<and> result_error (MultiImages h a input) = None"
proof -
  let ?rs = "regions (services a)"
  from assms(2) have all: "{x \<in> set ?rs. succeeds input x} = set ?rs" by auto
  from assms(2) have flt: "filter (succeeds input) ?rs = ?rs" by simp
  have "card (dom (result_map (MultiImages h a input))) = length ?rs"
    using card_succeeded[of ?rs input] assms(1) flt
    by (simp add: MultiImages_dom registry_ok_def)
  moreover have "failures input ?rs = []"
    using assms(2) by (simp add: failures_def)
  ultimately show ?thesis
    by (simp add: MultiImages_dom MultiImages_error all)
qed

theorem MultiImages_all_succeed_witness:
  "registry_ok provider_ok
   \<and> succeeds () (''us-east-1'', ok_east) \<and> succeeds () (''us-west-2'', ok_west)
   \<and> dom (result_map (MultiImages [Map.empty] provider_ok ())) = {''us-east-1'', ''us-west-2''}
   \<and> card (dom (result_map (MultiImages [Map.empty] provider_ok ()))) = 2
   \<and> result_error (MultiImages [Map.empty] provider_ok ()) = None"
  using MultiImages_all_succeed [of provider_ok "()" "[Map.empty]"]
  by (simp add: registry_ok_def provider_ok_def succeeds_def ok_east_def ok_west_def insert_commute)

text \<open>
  Claim C2. When exactly \<open>k \<ge> 1\<close> regions of the registry fail and the others succeed,
  the result map has one key for each succeeding region, which makes \<open>|R| - k\<close> keys,
  and the aggregated error is a collection of exactly \<open>k\<close> errors.
\<close>

theorem MultiImages_some_fail:
  assumes "registry_ok a"
    and "length (filter (\<lambda>x. \<not> succeeds input x) (regions (services a))) = k"
    and "1 \<le> k"
  shows "dom (result_map (MultiImages h a input)) =
        set (map fst (filter (succeeds input) (regions (services a))))
    \<and> card (dom (result_map (MultiImages h a input))) = length (regions (services a)) - k
    \<and> (\<exists>es. result_error (MultiImages h a input) = Some es \<and> length es = k)"
proof -
  let ?rs = "regions (services a)"
  have "card (dom (result_map (MultiImages h a input))) = length ?rs - k"
    using card_succeeded [of ?rs input] assms(1,2)
    by (simp add: MultiImages_dom registry_ok_def length_filter_succeeds)
  moreover have "length (failures input ?rs) = k"
    using assms(2) by (simp add: length_failures)
  moreover from this assms(3) have "failures input ?rs \<noteq> []" by auto
  moreover have "dom (result_map (MultiImages h a input)) =
      set (map fst (filter (succeeds input) ?rs))"
    by (simp add: MultiImages_dom)
  ultimately show ?thesis
    by (simp add: MultiImages_error)
qed

theorem MultiImages_some_fail_witness:
  "registry_ok provider_mixed
   \<and> length (filter (\<lambda>x. \<not> succeeds () x) (regions (services provider_mixed))) = 2
   \<and> dom (result_map (MultiImages [Map.empty] provider_mixed ())) = {''us-east-1'', ''us-west-2''}
   \<and> card (dom (result_map (MultiImages [Map.empty] provider_mixed ()))) = 2
   \<and> result_error (MultiImages [Map.empty] provider_mixed ()) =
       Some [''RequestLimitExceeded'', ''AuthFailure'']"
proof -
  have ok: "registry_ok provider_mixed"
    by (simp add: registry_ok_def provider_mixed_def)
  have k: "length (filter (\<lambda>x. \<not> succeeds () x) (regions (services provider_mixed))) = 2"
    by (simp add: provider_mixed_def succeeds_def ok_east_def ok_west_def down_eu_def down_ap_def)
  have s: "set (map fst (filter (succeeds ()) (regions (services provider_mixed)))) = {''us-east-1'', ''us-west-2''}"
    by (simp add: provider_mixed_def succeeds_def ok_east_def ok_west_def down_eu_def down_ap_def)
  have n: "length (regions (services provider_mixed)) - 2 = 2"
    by (simp add: provider_mixed_def)
  have e: "result_error (MultiImages [Map.empty] provider_mixed ()) =
       Some [''RequestLimitExceeded'', ''AuthFailure'']"
    by (simp add: MultiImages_error failures_def provider_mixed_def succeeds_def
        ok_east_def ok_west_def down_eu_def down_ap_def)
  have one: "(1::nat) \<le> 2" by simp
  note t = MultiImages_some_fail [OF ok k one, of "[Map.empty]", unfolded s n]
  from t ok k e show ?thesis by blast
qed

text \<open>
  Claim C3. A region whose call succeeds is a key of the result map, with the images
  the call returned (put in order when there are several), whatever the other regions
  do. All regions are attempted: the error is not nil exactly when some region fails, so
  a result map that is not empty and an error that is not nil come back together as
  soon as one region succeeds and another fails.
\<close>

theorem MultiImages_success_kept:
  assumes "registry_ok a"
    and "(r, svc) \<in> set (regions (services a))"
    and "svc input = Inr imgs"
  shows "result_map (MultiImages h a input) r =
        Some (if length imgs > 1 then sort_byTime imgs else imgs)
    \<and> result_map (MultiImages h a input) \<noteq> Map.empty
    \<and> ((\<exists>x \<in> set (regions (services a)). \<not> succeeds input x) \<longleftrightarrow>
         result_error (MultiImages h a input) \<noteq> None)"
proof -
  have l: "result_map (MultiImages h a input) r =
        Some (if length imgs > 1 then sort_byTime imgs else imgs)"
    using assms by (rule MultiImages_lookup)
  then have "result_map (MultiImages h a input) \<noteq> Map.empty"
    by (metis option.distinct(1))
  moreover have "(\<exists>x \<in> set (regions (services a)). \<not> succeeds input x) \<longleftrightarrow>
         result_error (MultiImages h a input) \<noteq> None"
    by (auto simp: MultiImages_error failures_def filter_empty_conv)
  ultimately show ?thesis using l by blast
qed

theorem MultiImages_success_kept_witness:
  "registry_ok provider_mixed
   \<and> (''us-east-1'', ok_east) \<in> set (regions (services provider_mixed))
   \<and> ok_east () = Inr [img ''ami-3'' 30, img ''ami-1'' 10, img ''ami-2'' 20]
   \<and> result_map (MultiImages [Map.empty] provider_mixed ()) ''us-east-1'' =
        Some [img ''ami-1'' 10, img ''ami-2'' 20, img ''ami-3'' 30]
   \<and> result_map (MultiImages [Map.empty] provider_mixed ()) \<noteq> Map.empty
   \<and> result_error (MultiImages [Map.empty] provider_mixed ()) \<noteq> None"
proof -
  have ok: "registry_ok provider_mixed"
    by (simp add: registry_ok_def provider_mixed_def)
  have m: "(''us-east-1'', ok_east) \<in> set (regions (services provider_mixed))"
    by (simp add: provider_mixed_def)
  have v: "ok_east () = Inr [img ''ami-3'' 30, img ''ami-1'' 10, img ''ami-2'' 20]"
    by (simp add: ok_east_def)
  have srt: "sort_byTime [img ''ami-3'' 30, img ''ami-1'' 10, img ''ami-2'' 20] =
      [img ''ami-1'' 10, img ''ami-2'' 20, img ''ami-3'' 30]"
    by (simp add: sort_byTime_def img_def)
  have f: "\<exists>x \<in> set (regions (services provider_mixed)). \<not> succeeds () x"
    by (simp add: provider_mixed_def succeeds_def down_eu_def)
  note t = MultiImages_success_kept [OF ok m v, of "[Map.empty]"]
  from t srt have "result_map (MultiImages [Map.empty] provider_mixed ()) ''us-east-1'' =
        Some [img ''ami-1'' 10, img ''ami-2'' 20, img ''ami-3'' 30]"
    by simp
  with t f ok m v show ?thesis by blast
qed

text \<open>
  Claim C4. The aggregated error is nil exactly when the call of every region succeeds.
  When it is not nil, it is one value that holds the errors of the failing regions, one
  entry for each failure: every error that a regional call returned is among them.
\<close>

theorem MultiImages_error_nil_iff:
  "(result_error (MultiImages h a input) = None \<longleftrightarrow>
      (\<forall>x \<in> set (regions (services a)). succeeds input x))
   \<and> (\<forall>es. result_error (MultiImages h a input) = Some es \<longrightarrow>
        es = failures input (regions (services a))
        \<and> (\<forall>r svc e. (r, svc) \<in> set (regions (services a)) \<and> svc input = Inl e \<longrightarrow> e \<in> set es))"
proof (intro conjI allI impI)
  show "result_error (MultiImages h a input) = None \<longleftrightarrow>
      (\<forall>x \<in> set (regions (services a)). succeeds input x)"
    by (simp add: MultiImages_error failures_empty_iff)
next
  fix es
  assume "result_error (MultiImages h a input) = Some es"
  then show "es = failures input (regions (services a))"
    by (simp add: MultiImages_error split: if_splits)
next
  fix es r svc e
  assume "result_error (MultiImages h a input) = Some es"
    and "(r, svc) \<in> set (regions (services a)) \<and> svc input = Inl e"
  then show "e \<in> set es"
    by (auto simp: MultiImages_error failures_member split: if_splits)
qed

theorem MultiImages_error_nil_iff_witness:
  "result_error (MultiImages [Map.empty] provider_ok ()) = None
   \<and> succeeds () (''us-east-1'', ok_east) \<and> succeeds () (''us-west-2'', ok_west)
   \<and> result_error (MultiImages [Map.empty] provider_mixed ()) =
        Some [''RequestLimitExceeded'', ''AuthFailure'']
   \<and> failures () (regions (services provider_mixed)) = [''RequestLimitExceeded'', ''AuthFailure'']"
proof -
  have s: "\<forall>x \<in> set (regions (services provider_ok)). succeeds () x"
    by (simp add: provider_ok_def succeeds_def ok_east_def ok_west_def)
  have e: "result_error (MultiImages [Map.empty] provider_mixed ()) =
        Some [''RequestLimitExceeded'', ''AuthFailure'']"
    by (simp add: MultiImages_error failures_def provider_mixed_def succeeds_def
        ok_east_def ok_west_def down_eu_def down_ap_def)
  have f: "failures () (regions (services provider_mixed)) = [''RequestLimitExceeded'', ''AuthFailure'']"
    using MultiImages_error_nil_iff [of "[Map.empty]" provider_mixed "()"] e by simp
  have n: "result_error (MultiImages [Map.empty] provider_ok ()) = None"
    using MultiImages_error_nil_iff [of "[Map.empty]" provider_ok "()"] s by blast
  have "succeeds () (''us-east-1'', ok_east)" "succeeds () (''us-west-2'', ok_west)"
    by (simp_all add: succeeds_def ok_east_def ok_west_def)
  with n e f show ?thesis by blast
qed

text \<open>
  Claim C5. For a region whose call succeeds with more than one image, the list kept
  in the result map is the returned list in ascending order of creation timestamp, with
  the same images. A returned list of length 0 or 1 is kept as it is: in that case the
  goroutine writes the returned list itself and the sort is not part of the step.
\<close>

theorem MultiImages_stored_sorted:
  assumes "registry_ok a"
    and "(r, svc) \<in> set (regions (services a))"
    and "svc input = Inr imgs"
  shows "\<exists>stored. result_map (MultiImages h a input) r = Some stored
    \<and> (length imgs > 1 \<longrightarrow>
          stored = sort_byTime imgs \<and> sorted (map CreationDate stored) \<and> mset stored = mset imgs)
    \<and> (length imgs \<le> 1 \<longrightarrow>
          stored = imgs
          \<and> goroutine input p (r, svc) (h0, e0) = (h0[p := (h0 ! p)(r \<mapsto> imgs)], e0))"
  using MultiImages_lookup [OF assms, of h] assms(3)
  by (auto simp: sorted_sort_byTime mset_sort_byTime)

theorem MultiImages_stored_sorted_witness:
  "registry_ok provider_ok
   \<and> (''us-east-1'', ok_east) \<in> set (regions (services provider_ok))
   \<and> ok_east () = Inr [img ''ami-3'' 30, img ''ami-1'' 10, img ''ami-2'' 20]
   \<and> result_map (MultiImages [Map.empty] provider_ok ()) ''us-east-1'' =
        Some [img ''ami-1'' 10, img ''ami-2'' 20, img ''ami-3'' 30]
   \<and> (''us-west-2'', ok_west) \<in> set (regions (services provider_ok))
   \<and> ok_west () = Inr [img ''ami-9'' 90]
   \<and> result_map (MultiImages [Map.empty] provider_ok ()) ''us-west-2'' = Some [img ''ami-9'' 90]"
proof -
  have ok: "registry_ok provider_ok"
    by (simp add: registry_ok_def provider_ok_def)
  have m: "(''us-east-1'', ok_east) \<in> set (regions (services provider_ok))"
    and m': "(''us-west-2'', ok_west) \<in> set (regions (services provider_ok))"
    by (simp_all add: provider_ok_def)
  have v: "ok_east () = Inr [img ''ami-3'' 30, img ''ami-1'' 10, img ''ami-2'' 20]"
    and v': "ok_west () = Inr [img ''ami-9'' 90]"
    by (simp_all add: ok_east_def ok_west_def)
  have srt: "sort_byTime [img ''ami-3'' 30, img ''ami-1'' 10, img ''ami-2'' 20] =
      [img ''ami-1'' 10, img ''ami-2'' 20, img ''ami-3'' 30]"
    by (simp add: sort_byTime_def img_def)
  from MultiImages_stored_sorted [OF ok m v, of "[Map.empty]"] srt
  have e: "result_map (MultiImages [Map.empty] provider_ok ()) ''us-east-1'' =
        Some [img ''ami-1'' 10, img ''ami-2'' 20, img ''ami-3'' 30]"
    by auto
  from MultiImages_stored_sorted [OF ok m' v', of "[Map.empty]"]
  have w: "result_map (MultiImages [Map.empty] provider_ok ()) ''us-west-2'' = Some [img ''ami-9'' 90]"
    by auto
  from ok m v e m' v' w show ?thesis by blast
qed

text \<open>
  Claim C7. When the call of a region fails, the goroutine hands the error to
  \<open>multierror_Append\<close> just as the provider returned it, at the end of the collection;
  the region takes no part in it. Hence the step is the same for any other region name,
  and the aggregated error of a call does not change when the regions of the registry
  are renamed: the error does not tell which region failed.
\<close>

theorem MultiImages_error_unattributed:
  "(svc input = Inl err \<longrightarrow>
      goroutine input p (region, svc) (h, multiErrors) = (h, multierror_Append multiErrors err)
      \<and> multierror_Append multiErrors err =
          Some ((case multiErrors of None \<Rightarrow> [] | Some es \<Rightarrow> es) @ [err])
      \<and> goroutine input p (region, svc) (h, multiErrors) =
          goroutine input p (region', svc) (h, multiErrors))
   \<and> result_error (MultiImages h0
        (a\<lparr>services := \<lparr>regions = map (\<lambda>x. (\<rho> (fst x), snd x)) (regions (services a))\<rparr>\<rparr>) input) =
      result_error (MultiImages h0 a input)"
  by (auto simp: multierror_Append_def MultiImages_error failures_rename split: option.splits)

theorem MultiImages_error_unattributed_witness:
  "down_eu () = Inl ''RequestLimitExceeded''
   \<and> goroutine () 0 (''eu-west-1'', down_eu) ([Map.empty], Some [''AuthFailure'']) =
       ([Map.empty], Some [''AuthFailure'', ''RequestLimitExceeded''])
   \<and> goroutine () 0 (''eu-west-1'', down_eu) ([Map.empty], Some [''AuthFailure'']) =
       goroutine () 0 (''ap-south-1'', down_eu) ([Map.empty], Some [''AuthFailure''])
   \<and> result_error (MultiImages [Map.empty] provider_renamed ()) =
       result_error (MultiImages [Map.empty] provider_mixed ())"
proof -
  have d: "down_eu () = Inl ''RequestLimitExceeded''"
    by (simp add: down_eu_def)
  note t = MultiImages_error_unattributed [where svc = down_eu and input = "()"
      and err = "''RequestLimitExceeded''" and p = 0 and region = "''eu-west-1''"
      and h = "[Map.empty]" and multiErrors = "Some [''AuthFailure'']"
      and region' = "''ap-south-1''" and ?h0.0 = "[Map.empty]" and a = provider_mixed
      and \<rho> = "\<lambda>r. ''somewhere''"]
  from t d show ?thesis
    by (simp add: provider_renamed_def)
qed

text \<open>
  Claim C8. Every call of \<open>MultiImages\<close> allocates its result map: the reference it
  returns is not a reference of the store the call started from, so it is neither the
  map of an earlier call nor the map of the receiver, and a later call gets yet another
  one. The maps that exist before the call, the map \<open>images\<close> of the receiver among
  them, are unchanged, the receiver is unchanged, and the result does not depend on
  \<open>images\<close> of the receiver; of \<open>services\<close> only the pairs of \<open>regions\<close> are used, and
  the keys of the result are among them.
\<close>

theorem MultiImages_frame:
  assumes "MultiImages h a input = (h1, a1, p1, err1)"
    and "MultiImages h1 a1 input' = (h2, a2, p2, err2)"
  shows "a1 = a \<and> a2 = a
    \<and> p1 = length h \<and> length h1 = Suc (length h) \<and> (\<forall>q < length h. h1 ! q = h ! q)
    \<and> p2 \<noteq> p1 \<and> h2 ! p1 = h1 ! p1
    \<and> (images a < length h \<longrightarrow> p1 \<noteq> images a \<and> h1 ! images a = h ! images a)
    \<and> MultiImages h (a\<lparr>images := q0\<rparr>) input = (h1, a\<lparr>images := q0\<rparr>, p1, err1)
    \<and> (regions (services a') = regions (services a) \<longrightarrow>
          MultiImages h a' input = (h1, a', p1, err1))
    \<and> dom (h1 ! p1) \<subseteq> fst ` set (regions (services a))"
proof -
  let ?rs = "regions (services a)"
  let ?st = "fold (goroutine input (length h)) ?rs (h @ [Map.empty], None)"
  from assms(1) have a1: "a1 = a" and p1: "p1 = length h" and h1: "h1 = fst ?st"
    and e1: "err1 = snd ?st"
    by (auto simp: MultiImages_unfold)
  have len1: "length h1 = Suc (length h)"
    by (simp add: h1 fold_goroutine_length)
  have old1: "\<forall>q < length h. h1 ! q = h ! q"
    by (simp add: h1 fold_goroutine_other nth_append)
  let ?st2 = "fold (goroutine input' (length h1)) (regions (services a1)) (h1 @ [Map.empty], None)"
  from assms(2) have a2: "a2 = a1" and p2: "p2 = length h1" and h2: "h2 = fst ?st2"
    by (auto simp: MultiImages_unfold)
  have old2: "h2 ! p1 = h1 ! p1"
    using len1 by (simp add: h2 p1 fold_goroutine_other nth_append)
  have indep: "MultiImages h (a\<lparr>images := q0\<rparr>) input = (h1, a\<lparr>images := q0\<rparr>, p1, err1)"
    by (simp add: MultiImages_unfold h1 p1 e1)
  have only: "regions (services a') = regions (services a) \<longrightarrow>
      MultiImages h a' input = (h1, a', p1, err1)"
    by (simp add: MultiImages_unfold h1 p1 e1)
  have "dom (h1 ! p1) = fst ` {x \<in> set ?rs. succeeds input x}"
    using MultiImages_dom [of h a input] assms(1) by (simp add: result_map_def)
  then have sub: "dom (h1 ! p1) \<subseteq> fst ` set ?rs" by auto
  from a1 a2 p1 p2 len1 old1 old2 indep only sub show ?thesis by simp
qed

theorem MultiImages_frame_witness:
  "MultiImages [Map.empty] provider_mixed () =
     ([Map.empty, result_mixed], provider_mixed, 1, Some [''RequestLimitExceeded'', ''AuthFailure''])
   \<and> MultiImages [Map.empty, result_mixed] provider_mixed () =
     ([Map.empty, result_mixed, result_mixed], provider_mixed, 2,
      Some [''RequestLimitExceeded'', ''AuthFailure''])
   \<and> images provider_mixed = 0
   \<and> [Map.empty, result_mixed] ! images provider_mixed = [Map.empty] ! images provider_mixed
   \<and> [Map.empty, result_mixed, result_mixed] ! 1 = [Map.empty, result_mixed] ! 1
   \<and> MultiImages [Map.empty] (provider_mixed\<lparr>images := 7\<rparr>) () =
     ([Map.empty, result_mixed], provider_mixed\<lparr>images := 7\<rparr>, 1,
      Some [''RequestLimitExceeded'', ''AuthFailure''])"
proof -
  have w1: "MultiImages [Map.empty] provider_mixed () =
     ([Map.empty, result_mixed], provider_mixed, 1, Some [''RequestLimitExceeded'', ''AuthFailure''])"
    by (simp add: MultiImages_def make_map_def provider_mixed_def result_mixed_def
        ok_east_def ok_west_def down_eu_def down_ap_def sort_byTime_def img_def
        multierror_Append_def)
  have w2: "MultiImages [Map.empty, result_mixed] provider_mixed () =
     ([Map.empty, result_mixed, result_mixed], provider_mixed, 2,
      Some [''RequestLimitExceeded'', ''AuthFailure''])"
    by (simp add: MultiImages_def make_map_def provider_mixed_def result_mixed_def
        ok_east_def ok_west_def down_eu_def down_ap_def sort_byTime_def img_def
        multierror_Append_def)
  have i: "images provider_mixed = 0"
    by (simp add: provider_mixed_def)
  note t = MultiImages_frame [OF w1 w2, where ?q0.0 = 7]
  from t have f: "MultiImages [Map.empty] (provider_mixed\<lparr>images := 7\<rparr>) () =
     ([Map.empty, result_mixed], provider_mixed\<lparr>images := 7\<rparr>, 1,
      Some [''RequestLimitExceeded'', ''AuthFailure''])"
    by simp
  from t i have o: "[Map.empty, result_mixed] ! images provider_mixed = [Map.empty] ! images provider_mixed"
    by simp
  from t have k: "[Map.empty, result_mixed, result_mixed] ! 1 = [Map.empty, result_mixed] ! 1"
    by simp
  from w1 w2 i o k f show ?thesis by (intro conjI)
qed

section \<open>Properties of New\<close>

text \<open>
  Claim C6. \<open>New\<close> returns an error exactly when the region, the access key or the
  secret key of the configuration is empty. The error is raised before anything is
  built: it is the same whatever \<^verbatim>\<open>newMultiRegion\<close> and \<^verbatim>\<open>parseRegions\<close> do and
  whatever the store holds. With an empty access key and the two other fields set,
  \<open>New\<close> fails with the message about the access key. Without an error, the provider
  is built from the registry and a new map.
\<close>

theorem New_error_iff:
  "(isl (New newMultiRegion parseRegions h conf) \<longleftrightarrow>
      Region conf = '''' \<or> AccessKey conf = '''' \<or> SecretKey conf = '''')
   \<and> (isl (New newMultiRegion parseRegions h conf) \<longrightarrow>
        New newMultiRegion' parseRegions' h' conf = New newMultiRegion parseRegions h conf)
   \<and> (AccessKey conf = '''' \<and> SecretKey conf \<noteq> '''' \<and> Region conf \<noteq> '''' \<longrightarrow>
        New newMultiRegion parseRegions h conf =
          Inl ''AWS Access Key is not set. Please check your configuration'')
   \<and> (\<not> isl (New newMultiRegion parseRegions h conf) \<longrightarrow>
        New newMultiRegion parseRegions h conf =
          Inr (h @ [Map.empty],
               \<lparr>services = newMultiRegion
                   \<lparr>Credentials = (AccessKey conf, SecretKey conf, ''''),
                    HTTPClient = \<lparr>TLSHandshakeTimeout = 30, Timeout = 30\<rparr>\<rparr>
                   (parseRegions (Region conf) (RegionExclude conf)),
                images = length h\<rparr>))"
  by (simp add: New_def make_map_def Let_def)

theorem New_error_iff_witness:
  "AccessKey conf_no_key = '''' \<and> SecretKey conf_no_key \<noteq> '''' \<and> Region conf_no_key \<noteq> ''''
   \<and> isl (New down_clients split_regions [] conf_no_key)
   \<and> New down_clients split_regions [] conf_no_key =
        Inl ''AWS Access Key is not set. Please check your configuration''
   \<and> New up_clients (\<lambda>incl excl. []) [Map.empty] conf_no_key =
        New down_clients split_regions [] conf_no_key
   \<and> \<not> isl (New down_clients split_regions [] conf_full)"
proof -
  have c: "AccessKey conf_no_key = '''' \<and> SecretKey conf_no_key \<noteq> '''' \<and> Region conf_no_key \<noteq> ''''"
    by (simp add: conf_no_key_def)
  have f: "\<not> (Region conf_full = '''' \<or> AccessKey conf_full = '''' \<or> SecretKey conf_full = '''')"
    by (simp add: conf_full_def)
  note t = New_error_iff [where conf = conf_no_key and newMultiRegion = down_clients
      and parseRegions = split_regions and h = "[]" and newMultiRegion' = up_clients
      and parseRegions' = "\<lambda>incl excl. []" and h' = "[Map.empty]"]
  note u = New_error_iff [where conf = conf_full and newMultiRegion = down_clients
      and parseRegions = split_regions and h = "[]" and newMultiRegion' = down_clients
      and parseRegions' = split_regions and h' = "[]"]
  from t u c f show ?thesis by blast
qed

section \<open>Properties of Help\<close>

lemma sublist_append_fresh_head:
  assumes "x \<notin> set p"
  shows "sublist (x # xs) (p @ c) \<longleftrightarrow> sublist (x # xs) c"
proof
  assume "sublist (x # xs) (p @ c)"
  then obtain ps ss where eq: "p @ c = ps @ (x # xs) @ ss"
    by (auto simp: sublist_def)
  then obtain us where "p = ps @ us \<and> us @ c = (x # xs) @ ss \<or> p @ us = ps \<and> c = us @ (x # xs) @ ss"
    by (auto simp: append_eq_append_conv2)
  then show "sublist (x # xs) c"
  proof
    assume a: "p = ps @ us \<and> us @ c = (x # xs) @ ss"
    show ?thesis
    proof (cases us)
      case Nil
      with a have "c = (x # xs) @ ss" by simp
      then show ?thesis by (metis sublist_append_rightI)
    next
      case (Cons u us')
      with a have "u = x" by simp
      with a Cons assms show ?thesis by simp
    qed
  next
    assume "p @ us = ps \<and> c = us @ (x # xs) @ ss"
    then show ?thesis by (metis sublist_appendI)
  qed
next
  assume "sublist (x # xs) c"
  then obtain ps ss where "c = ps @ (x # xs) @ ss" by (auto simp: sublist_def)
  then have "p @ c = (p @ ps) @ (x # xs) @ ss" by simp
  then show "sublist (x # xs) (p @ c)" by (metis sublist_appendI)
qed

lemma global_Cons: "\<exists>xs. global = CHR ''\<newline>'' # xs"
  by (simp add: global_def)

lemma sublist_global_unknown:
  "sublist global (''no help found for command '' @ command) \<longleftrightarrow> sublist global command"
proof -
  obtain xs where g: "global = CHR ''\<newline>'' # xs" using global_Cons by blast
  have "CHR ''\<newline>'' \<notin> set ''no help found for command ''" by simp
  then show ?thesis unfolding g by (rule sublist_append_fresh_head)
qed

lemma global_lists_flags:
  "sublist ''-access-key '' global \<and> sublist ''-secret-key '' global
   \<and> sublist ''-region '' global \<and> sublist ''-region-exclude '' global"
  unfolding global_def by code_simp

text \<open>
  Claim C9. For every command other than \<^verbatim>\<open>modify\<close>, \<^verbatim>\<open>delete\<close>, \<^verbatim>\<open>list\<close> and
  \<^verbatim>\<open>copy\<close>, \<open>Help\<close> returns the text \<^verbatim>\<open>no help found for command\<close> followed by a
  blank and the command. \<open>Help\<close> is a total function, and in this case its value does
  not depend on the help messages of the flag sets, which are not consulted.
\<close>

theorem Help_unknown:
  assumes "command \<notin> {''modify'', ''delete'', ''list'', ''copy''}"
  shows "Help f command = ''no help found for command '' @ command
    \<and> Help f' command = Help f command"
  using assms by (simp add: Help_def)

theorem Help_unknown_witness:
  "''launch'' \<notin> {''modify'', ''delete'', ''list'', ''copy''}
   \<and> Help flags0 ''launch'' = ''no help found for command launch''"
  using Help_unknown [of "''launch''" flags0 flags0] by simp

text \<open>
  Claim C10, as amended. For each of the four known commands the string that \<open>Help\<close>
  returns ends with the block \<open>global\<close>, which lists the flags \<^verbatim>\<open>-access-key\<close>,
  \<^verbatim>\<open>-secret-key\<close>, \<^verbatim>\<open>-region\<close> and \<^verbatim>\<open>-region-exclude\<close>. For any other command
  the block is not appended: the result is the text \<^verbatim>\<open>no help found for command\<close> with
  the command after it, so the block occurs in the result only if it occurs in the
  command itself.
\<close>

theorem Help_global_block:
  "(command \<in> {''modify'', ''delete'', ''list'', ''copy''} \<longrightarrow> suffix global (Help f command))
   \<and> sublist ''-access-key '' global \<and> sublist ''-secret-key '' global
   \<and> sublist ''-region '' global \<and> sublist ''-region-exclude '' global
   \<and> (command \<notin> {''modify'', ''delete'', ''list'', ''copy''} \<longrightarrow>
        Help f command = ''no help found for command '' @ command
        \<and> (sublist global (Help f command) \<longleftrightarrow> sublist global command))"
proof -
  have "command \<in> {''modify'', ''delete'', ''list'', ''copy''} \<longrightarrow> suffix global (Help f command)"
    by (auto simp: Help_def suffix_def)
  moreover have "command \<notin> {''modify'', ''delete'', ''list'', ''copy''} \<longrightarrow>
      Help f command = ''no help found for command '' @ command
      \<and> (sublist global (Help f command) \<longleftrightarrow> sublist global command)"
    using sublist_global_unknown [of command] by (simp add: Help_def)
  ultimately show ?thesis using global_lists_flags by blast
qed

theorem Help_global_block_witness:
  "''list'' \<in> {''modify'', ''delete'', ''list'', ''copy''}
   \<and> suffix global (Help flags0 ''list'')
   \<and> ''launch'' \<notin> {''modify'', ''delete'', ''list'', ''copy''}
   \<and> Help flags0 ''launch'' = ''no help found for command launch''
   \<and> \<not> sublist global (Help flags0 ''launch'')"
proof -
  have k: "''list'' \<in> {''modify'', ''delete'', ''list'', ''copy''}" by simp
  have u: "''launch'' \<notin> {''modify'', ''delete'', ''list'', ''copy''}" by simp
  have "length ''launch'' < length global" by (simp add: global_def)
  then have s: "\<not> sublist global ''launch''"
    using sublist_length_le [of global "''launch''"] by linarith
  note t = Help_global_block [of "''list''" flags0]
  from t [THEN conjunct1, THEN mp, OF k]
  have a: "suffix global (Help flags0 ''list'')" .
  note t' = Help_global_block [of "''launch''" flags0]
  note t'' = t' [THEN conjunct2, THEN conjunct2, THEN conjunct2, THEN conjunct2, THEN conjunct2,
      THEN mp, OF u]
  from t'' [THEN conjunct1]
  have b: "Help flags0 ''launch'' = ''no help found for command launch''" by simp
  have c: "\<not> sublist global (Help flags0 ''launch'')"
  proof
    assume "sublist global (Help flags0 ''launch'')"
    with t'' [THEN conjunct2] have "sublist global ''launch''" by (rule iffD1)
    with s show False ..
  qed
  from k a u b c show ?thesis by (intro conjI)
qed

text \<open>
  The claim as first stated says that the string for an unknown command never holds
  the block. The command is echoed in the result, so a command that carries the text
  of the block is an unknown command whose result ends with the block.
\<close>

theorem Help_unknown_contains_global:
  "global \<notin> {''modify'', ''delete'', ''list'', ''copy''}
   \<and> suffix global (Help flags0 global) \<and> sublist global (Help flags0 global)"
proof -
  have n: "global \<notin> {''modify'', ''delete'', ''list'', ''copy''}"
    by (simp add: global_def)
  then have "Help flags0 global = ''no help found for command '' @ global"
    by (simp add: Help_def)
  then have "suffix global (Help flags0 global)"
    by (simp add: suffix_def)
  with n show ?thesis by simp
qed

end
